theory Spec2Isabelle
  imports Main "HOL-Library.Sublist"
begin

text \<open>
  The form agent discovers the controls of a rendered document, asks a provider for a
  value per label, and applies the values by finding each control again through its
  label. The repository holds two variants of one engine. The one modelled here is the
  container-aware variant, whose discovery walks the question containers and then
  sweeps up the text controls outside them, and whose entry point stops when nothing
  was discovered. The flat variant (\<open>src/index.ts\<close>) has the same label helpers and
  the same loop over the descriptors; it differs in discovery, in the test that picks a
  radio and in having no such stop.
\<close>

section \<open>Strings as the page scripts use them\<close>

text \<open>
  JavaScript strings are modelled as \<^typ>\<open>string\<close>. \<open>trim\<close> removes the white space
  of the language at both ends (of which the ASCII characters are modelled),
  \<open>s.includes(t)\<close> holds when \<open>t\<close> occurs in \<open>s\<close> as a contiguous block, and a template
  literal prints a non-negative index in decimal. The document itself splits class
  lists and option texts at its own white space, which has no vertical tab.
\<close>

definition is_space :: "char \<Rightarrow> bool" where
  "is_space c = (c = CHR '' '' \<or> c = CHR 0x09 \<or> c = CHR 0x0A \<or> c = CHR 0x0B
     \<or> c = CHR 0x0C \<or> c = CHR 0x0D)"

definition is_html_space :: "char \<Rightarrow> bool" where
  "is_html_space c = (c = CHR '' '' \<or> c = CHR 0x09 \<or> c = CHR 0x0A
     \<or> c = CHR 0x0C \<or> c = CHR 0x0D)"

definition trim :: "string \<Rightarrow> string" where
  "trim s = rev (dropWhile is_space (rev (dropWhile is_space s)))"

fun str_includes :: "string \<Rightarrow> string \<Rightarrow> bool" where
  "str_includes [] t = (t = [])"
| "str_includes (c # s) t = (prefix t (c # s) \<or> str_includes s t)"

text \<open>\<open>a || b\<close> on a possibly missing string: \<open>null\<close>, \<open>undefined\<close> and \<open>''\<close> are falsy.\<close>

definition orElse :: "string option \<Rightarrow> string \<Rightarrow> string" where
  "orElse a b = (case a of None \<Rightarrow> b | Some s \<Rightarrow> if s = [] then b else s)"

definition digit_char :: "nat \<Rightarrow> char" where
  "digit_char n = ''0123456789'' ! n"

fun dec :: "nat \<Rightarrow> string" where
  "dec n = (if n < 10 then [digit_char n] else dec (n div 10) @ [digit_char (n mod 10)])"

declare dec.simps [simp del]

text \<open>ASCII lower case, as the document compares the values of a \<open>type\<close> attribute.\<close>

definition lowerChar :: "char \<Rightarrow> char" where
  "lowerChar c =
     (case map_of (zip ''ABCDEFGHIJKLMNOPQRSTUVWXYZ'' ''abcdefghijklmnopqrstuvwxyz'') c of
        None \<Rightarrow> c
      | Some l \<Rightarrow> l)"

definition asciiLower :: "string \<Rightarrow> string" where
  "asciiLower s = map lowerChar s"

fun tokens :: "string \<Rightarrow> string \<Rightarrow> string list" where
  "tokens cur [] = (if cur = [] then [] else [cur])"
| "tokens cur (c # s) =
     (if is_html_space c then (if cur = [] then tokens [] s else cur # tokens [] s)
      else tokens (cur @ [c]) s)"

section \<open>The rendered document\<close>

text \<open>
  A document is a tree of elements and text nodes. An element is known by its position:
  the child indexes on the way up to the root, innermost first. The tree holds what
  label inference and the selectors read (tags in lower case, attributes, text); the
  live properties that application writes (\<open>value\<close>, \<open>checked\<close>) and the notifications
  it emits are kept beside the tree, keyed by position. Scripts of the page that react
  to notifications are outside the model, and so are disabled controls.

  The source builds one selector from data of the page: \<open>label[for="..."]\<close> around a
  control's identifier. An identifier with a double quote, a backslash, a line break or
  a null character reshapes that text: the browser raises a syntax error when the text
  is no selector, and otherwise runs the selector the text has become. What the lookup
  answers for such an identifier is a field of the document, \<open>reshapedLookup\<close>, so that
  every theorem holds whatever the browser does there.
\<close>

datatype node = Text string | Element string "(string \<times> string) list" "node list"

type_synonym path = "nat list"

type_synonym element = "path \<times> node"

datatype error = SyntaxError | BrowserNotInitialized | SessionFailed | ProviderFailed string

record document =
  root :: node
  valueProp :: "path \<Rightarrow> string"
  checkedProp :: "path \<Rightarrow> bool"
  dispatched :: "(path \<times> string) list"
  reshapedLookup :: "string \<Rightarrow> error + element option"

fun tagOf :: "node \<Rightarrow> string" where
  "tagOf (Text s) = []"
| "tagOf (Element t as cs) = t"

fun attributes :: "node \<Rightarrow> (string \<times> string) list" where
  "attributes (Text s) = []"
| "attributes (Element t as cs) = as"

fun childNodes :: "node \<Rightarrow> node list" where
  "childNodes (Text s) = []"
| "childNodes (Element t as cs) = cs"

fun isElement :: "node \<Rightarrow> bool" where
  "isElement (Text s) = False"
| "isElement (Element t as cs) = True"

fun textContent :: "node \<Rightarrow> string" where
  "textContent (Text s) = s"
| "textContent (Element t as cs) = concat (map textContent cs)"

definition getAttribute :: "node \<Rightarrow> string \<Rightarrow> string option" where
  "getAttribute n a = map_of (attributes n) a"

definition hasClass :: "node \<Rightarrow> string \<Rightarrow> bool" where
  "hasClass n c = (case getAttribute n ''class'' of None \<Rightarrow> False
     | Some v \<Rightarrow> c \<in> set (tokens [] v))"

text \<open>Document order: an element, then its children's subtrees from left to right.\<close>

fun elems :: "path \<Rightarrow> node \<Rightarrow> element list"
  and elems_list :: "path \<Rightarrow> nat \<Rightarrow> node list \<Rightarrow> element list" where
  "elems p (Text s) = []"
| "elems p (Element t as cs) = (p, Element t as cs) # elems_list p 0 cs"
| "elems_list p i [] = []"
| "elems_list p i (c # cs) = elems (i # p) c @ elems_list p (Suc i) cs"

fun node_at :: "node \<Rightarrow> path \<Rightarrow> node option" where
  "node_at n [] = Some n"
| "node_at n (i # p) =
     (case node_at n p of
        Some (Element t as cs) \<Rightarrow> if i < length cs then Some (cs ! i) else None
      | _ \<Rightarrow> None)"

definition descendants :: "element \<Rightarrow> element list" where
  "descendants e = elems_list (fst e) 0 (childNodes (snd e))"

text \<open>
  Every other selector of the source is a fixed list of compound selectors without
  combinators, so it is a test on one element. \<open>document.querySelectorAll\<close> filters the
  document in document order, \<open>e.querySelectorAll\<close> the descendants of \<open>e\<close> (never \<open>e\<close>
  itself), and \<open>querySelector\<close> is the first of them. \<open>closest\<close> tests the element
  itself and then its ancestors, nearest first. The value of a \<open>type\<close> attribute is
  compared without regard to ASCII case, as an HTML document does; class names and the
  other attribute values are compared as they are written.
\<close>

definition querySelectorAll :: "node \<Rightarrow> (node \<Rightarrow> bool) \<Rightarrow> element list" where
  "querySelectorAll r sel = filter (\<lambda>e. sel (snd e)) (elems [] r)"

definition querySelector :: "node \<Rightarrow> (node \<Rightarrow> bool) \<Rightarrow> element option" where
  "querySelector r sel = find (\<lambda>e. sel (snd e)) (elems [] r)"

definition querySelectorAllIn :: "element \<Rightarrow> (node \<Rightarrow> bool) \<Rightarrow> element list" where
  "querySelectorAllIn e sel = filter (\<lambda>x. sel (snd x)) (descendants e)"

definition querySelectorIn :: "element \<Rightarrow> (node \<Rightarrow> bool) \<Rightarrow> element option" where
  "querySelectorIn e sel = find (\<lambda>x. sel (snd x)) (descendants e)"

fun closest :: "node \<Rightarrow> (node \<Rightarrow> bool) \<Rightarrow> path \<Rightarrow> element option" where
  "closest r sel [] =
     (case node_at r [] of
        Some n \<Rightarrow> if isElement n \<and> sel n then Some ([], n) else None
      | None \<Rightarrow> None)"
| "closest r sel (i # p) =
     (case node_at r (i # p) of
        Some n \<Rightarrow> if isElement n \<and> sel n then Some (i # p, n) else closest r sel p
      | None \<Rightarrow> closest r sel p)"

text \<open>The element siblings before the element at a position, nearest first.\<close>

definition previousElementSiblings :: "node \<Rightarrow> path \<Rightarrow> node list" where
  "previousElementSiblings r p =
     (case p of
        [] \<Rightarrow> []
      | i # q \<Rightarrow> (case node_at r q of
                    Some n \<Rightarrow> rev (filter isElement (take i (childNodes n)))
                  | None \<Rightarrow> []))"

subsection \<open>The selectors of the source\<close>

definition labelSel :: "node \<Rightarrow> bool" where
  "labelSel n = (tagOf n = ''label'')"

definition labelForSel :: "string \<Rightarrow> node \<Rightarrow> bool" where
  "labelForSel i n = (tagOf n = ''label'' \<and> getAttribute n ''for'' = Some i)"

definition inputOfType :: "string \<Rightarrow> node \<Rightarrow> bool" where
  "inputOfType ty n =
     (tagOf n = ''input'' \<and> map_option asciiLower (getAttribute n ''type'') = Some ty)"

definition questionContainerSel :: "node \<Rightarrow> bool" where
  "questionContainerSel n =
     ((case getAttribute n ''data-params'' of None \<Rightarrow> False
        | Some v \<Rightarrow> str_includes v ''question'')
      \<or> hasClass n ''freebirdFormviewerViewItemsItemItem'' \<or> hasClass n ''m2'')"

definition questionTitleSel :: "node \<Rightarrow> bool" where
  "questionTitleSel n =
     (hasClass n ''freebirdFormviewerViewItemsItemItemTitle'' \<or> hasClass n ''m7''
      \<or> tagOf n = ''h1'' \<or> tagOf n = ''h2'' \<or> tagOf n = ''h3''
      \<or> tagOf n = ''h4'' \<or> tagOf n = ''h5'' \<or> tagOf n = ''h6'')"

definition radioSel :: "node \<Rightarrow> bool" where
  "radioSel n = inputOfType ''radio'' n"

definition checkboxSel :: "node \<Rightarrow> bool" where
  "checkboxSel n = inputOfType ''checkbox'' n"

definition selectSel :: "node \<Rightarrow> bool" where
  "selectSel n = (tagOf n = ''select'')"

text \<open>The text controls that application scans.\<close>

definition textControlSel :: "node \<Rightarrow> bool" where
  "textControlSel n =
     (inputOfType ''text'' n \<or> inputOfType ''email'' n \<or> inputOfType ''tel'' n
      \<or> tagOf n = ''textarea'')"

text \<open>The text controls that discovery scans: the same, and inputs with no \<open>type\<close>.\<close>

definition textInputSel :: "node \<Rightarrow> bool" where
  "textInputSel n =
     (textControlSel n \<or> (tagOf n = ''input'' \<and> getAttribute n ''type'' = None))"

section \<open>Label inference\<close>

text \<open>
  The first step of every helper: the label that refers to the control's identifier.
  A plain identifier stands in the selector as it is; for any other the lookup is the
  document's \<open>reshapedLookup\<close>, which may raise.
\<close>

definition plainId :: "string \<Rightarrow> bool" where
  "plainId i = (\<forall>c \<in> set i. c \<noteq> CHR 0x22 \<and> c \<noteq> CHR 0x5C \<and> c \<noteq> CHR 0x0A
     \<and> c \<noteq> CHR 0x0C \<and> c \<noteq> CHR 0x0D \<and> c \<noteq> CHR 0x00)"

definition labelById :: "document \<Rightarrow> node \<Rightarrow> error + element option" where
  "labelById d n =
     (case getAttribute n ''id'' of
        None \<Rightarrow> Inr None
      | Some i \<Rightarrow>
          if i = [] then Inr None
          else if plainId i then Inr (querySelector (root d) (labelForSel i))
          else reshapedLookup d i)"

text \<open>
  \<open>findLabelForInput\<close> is the helper of the discovery pass: the label for the
  identifier, a label around the control, the walk over the preceding siblings up to
  the first label element or element of class \<open>question\<close>, the \<open>aria-label\<close>, the
  placeholder, and at last the sentinel. It raises what the first step raises.
\<close>

fun prevWalk :: "node list \<Rightarrow> node option" where
  "prevWalk [] = None"
| "prevWalk (prev # rest) =
     (if tagOf prev = ''label'' \<or> hasClass prev ''question'' then Some prev
      else prevWalk rest)"

definition trimmedText :: "node \<Rightarrow> string" where
  "trimmedText n = orElse (Some (trim (textContent n))) []"

definition attrOrElse :: "node \<Rightarrow> string \<Rightarrow> string \<Rightarrow> string" where
  "attrOrElse n a other = orElse (getAttribute n a) other"

definition findLabelForInput :: "document \<Rightarrow> element \<Rightarrow> error + string" where
  "findLabelForInput d input =
     (case labelById d (snd input) of
        Inl e \<Rightarrow> Inl e
      | Inr (Some l) \<Rightarrow> Inr (trimmedText (snd l))
      | Inr None \<Rightarrow>
         Inr (case closest (root d) labelSel (fst input) of
            Some parentLabel \<Rightarrow> trimmedText (snd parentLabel)
          | None \<Rightarrow>
             (case prevWalk (previousElementSiblings (root d) (fst input)) of
                Some prev \<Rightarrow> trimmedText prev
              | None \<Rightarrow>
                 attrOrElse (snd input) ''aria-label''
                   (attrOrElse (snd input) ''placeholder'' ''Unknown field''))))"

text \<open>
  \<open>findLabelText\<close> is the helper the application pass declares again inside each page
  script. The one of the text kinds has no sibling walk; the one of the checkbox and
  dropdown kinds has no sibling walk and no placeholder step.
\<close>

definition findLabelText :: "document \<Rightarrow> element \<Rightarrow> error + string" where
  "findLabelText d el =
     (case labelById d (snd el) of
        Inl e \<Rightarrow> Inl e
      | Inr (Some l) \<Rightarrow> Inr (trimmedText (snd l))
      | Inr None \<Rightarrow>
         Inr (case closest (root d) labelSel (fst el) of
            Some parentLabel \<Rightarrow> trimmedText (snd parentLabel)
          | None \<Rightarrow>
             attrOrElse (snd el) ''aria-label''
               (attrOrElse (snd el) ''placeholder'' ''Unknown field'')))"

definition findLabelTextChoice :: "document \<Rightarrow> element \<Rightarrow> error + string" where
  "findLabelTextChoice d el =
     (case labelById d (snd el) of
        Inl e \<Rightarrow> Inl e
      | Inr (Some l) \<Rightarrow> Inr (trimmedText (snd l))
      | Inr None \<Rightarrow>
         Inr (case closest (root d) labelSel (fst el) of
            Some parentLabel \<Rightarrow> trimmedText (snd parentLabel)
          | None \<Rightarrow> attrOrElse (snd el) ''aria-label'' ''Unknown field''))"

section \<open>Discovery\<close>

text \<open>
  A descriptor as the source declares it. \<open>options\<close> is absent for the kinds that
  carry none. \<open>element\<close> is the position of the control the descriptor was made from.
\<close>

record FormField =
  type :: string
  label :: string
  name :: string
  required :: bool
  options :: "string list option"
  element :: path

text \<open>The \<open>required\<close> and \<open>name\<close> properties reflect the attributes of the same name.\<close>

definition requiredProp :: "node \<Rightarrow> bool" where
  "requiredProp n = (getAttribute n ''required'' \<noteq> None)"

definition nameProp :: "node \<Rightarrow> string" where
  "nameProp n = (case getAttribute n ''name'' of None \<Rightarrow> [] | Some v \<Rightarrow> v)"

fun join :: "string \<Rightarrow> string list \<Rightarrow> string" where
  "join sep [] = []"
| "join sep [x] = x"
| "join sep (x # y # ys) = x @ sep @ join sep (y # ys)"

text \<open>
  The options of a dropdown are its option children and the option children of its
  option groups; the text of an option is its text content with white space stripped
  and collapsed.
\<close>

definition optionNodes :: "node \<Rightarrow> node list" where
  "optionNodes n =
     concat (map (\<lambda>c. if tagOf c = ''option'' then [c]
                        else if tagOf c = ''optgroup''
                          then filter (\<lambda>g. tagOf g = ''option'') (childNodes c)
                        else [])
                 (childNodes n))"

definition optionTextOf :: "node \<Rightarrow> string" where
  "optionTextOf opt = join '' '' (tokens [] (textContent opt))"

definition closestLabelText :: "node \<Rightarrow> path \<Rightarrow> string option" where
  "closestLabelText r p = map_option (\<lambda>l. trim (textContent (snd l))) (closest r labelSel p)"

definition titleText :: "element \<Rightarrow> string option" where
  "titleText container =
     map_option (\<lambda>h. trim (textContent (snd h))) (querySelectorIn container questionTitleSel)"

definition questionTextOf :: "nat \<Rightarrow> element \<Rightarrow> string" where
  "questionTextOf containerIndex container =
     orElse (titleText container) (''Question '' @ dec (containerIndex + 1))"

definition textKind :: "node \<Rightarrow> string" where
  "textKind n = (if tagOf n = ''textarea'' then ''textarea'' else ''text'')"

definition optionText :: "document \<Rightarrow> element \<Rightarrow> string" where
  "optionText d input =
     orElse (closestLabelText (root d) (fst input))
       (orElse (getAttribute (snd input) ''aria-label'')
          (orElse (Some (valueProp d (fst input))) ''Option''))"

definition radioGroup :: "document \<Rightarrow> nat \<Rightarrow> element \<Rightarrow> FormField list" where
  "radioGroup d containerIndex container =
     (let questionText = questionTextOf containerIndex container;
          radioInputs = querySelectorAllIn container radioSel
      in case radioInputs of
           [] \<Rightarrow> []
         | first # others \<Rightarrow>
             [\<lparr>type = ''radio'', label = questionText,
               name = ''question_'' @ dec containerIndex, required = False,
               options = Some (map (optionText d) radioInputs),
               element = fst first\<rparr>])"

definition checkboxText :: "node \<Rightarrow> nat \<Rightarrow> element \<Rightarrow> string" where
  "checkboxText r checkboxIndex checkbox =
     orElse (closestLabelText r (fst checkbox))
       (orElse (getAttribute (snd checkbox) ''aria-label'')
          (''Checkbox '' @ dec (checkboxIndex + 1)))"

definition checkboxFields :: "document \<Rightarrow> nat \<Rightarrow> element \<Rightarrow> FormField list" where
  "checkboxFields d containerIndex container =
     (let questionText = questionTextOf containerIndex container;
          checkboxes = querySelectorAllIn container checkboxSel
      in map (\<lambda>(checkboxIndex, checkbox).
               \<lparr>type = ''checkbox'',
                label = questionText @ '' - '' @ checkboxText (root d) checkboxIndex checkbox,
                name = ''question_'' @ dec containerIndex @ ''_checkbox_'' @ dec checkboxIndex,
                required = False, options = None, element = fst checkbox\<rparr>)
             (enumerate 0 checkboxes))"

definition textFields :: "document \<Rightarrow> nat \<Rightarrow> element \<Rightarrow> FormField list" where
  "textFields d containerIndex container =
     (let questionText = questionTextOf containerIndex container;
          textInputs = querySelectorAllIn container textInputSel
      in map (\<lambda>(inputIndex, input).
               \<lparr>type = textKind (snd input), label = questionText,
                name = ''question_'' @ dec containerIndex @ ''_text_'' @ dec inputIndex,
                required = requiredProp (snd input), options = None,
                element = fst input\<rparr>)
             (enumerate 0 textInputs))"

definition selectFields :: "document \<Rightarrow> nat \<Rightarrow> element \<Rightarrow> FormField list" where
  "selectFields d containerIndex container =
     (let questionText = questionTextOf containerIndex container;
          selects = querySelectorAllIn container selectSel
      in map (\<lambda>(selectIndex, select).
               \<lparr>type = ''select'', label = questionText,
                name = ''question_'' @ dec containerIndex @ ''_select_'' @ dec selectIndex,
                required = requiredProp (snd select),
                options = Some (map optionTextOf (optionNodes (snd select))),
                element = fst select\<rparr>)
             (enumerate 0 selects))"

text \<open>What one pass of the loop over the question containers pushes, in order.\<close>

definition containerFields :: "document \<Rightarrow> nat \<Rightarrow> element \<Rightarrow> FormField list" where
  "containerFields d containerIndex container =
     radioGroup d containerIndex container @ checkboxFields d containerIndex container
     @ textFields d containerIndex container @ selectFields d containerIndex container"

definition questionContainers :: "document \<Rightarrow> element list" where
  "questionContainers d = querySelectorAll (root d) questionContainerSel"

definition containerPass :: "document \<Rightarrow> FormField list" where
  "containerPass d =
     concat (map (\<lambda>(containerIndex, container). containerFields d containerIndex container)
                 (enumerate 0 (questionContainers d)))"

text \<open>
  The fallback sweep: every text control of the document that has no question
  container among itself and its ancestors, labelled by \<open>findLabelForInput\<close> and named
  by its \<open>name\<close> property, or by its index in the sweep when that is empty. The loop
  pushes descriptor after descriptor and stops where label inference raises; \<open>sweep\<close>
  returns the descriptors pushed and the error raised, if any.
\<close>

definition fallbackField :: "document \<Rightarrow> nat \<Rightarrow> element \<Rightarrow> error + FormField list" where
  "fallbackField d index input =
     (if closest (root d) questionContainerSel (fst input) \<noteq> None then Inr []
      else case findLabelForInput d input of
             Inl e \<Rightarrow> Inl e
           | Inr inferred \<Rightarrow>
               Inr [\<lparr>type = textKind (snd input), label = inferred,
                     name = orElse (Some (nameProp (snd input))) (''field_'' @ dec index),
                     required = requiredProp (snd input), options = None,
                     element = fst input\<rparr>])"

fun sweep :: "document \<Rightarrow> (nat \<times> element) list \<Rightarrow> FormField list \<times> error option" where
  "sweep d [] = ([], None)"
| "sweep d (x # rest) =
     (case fallbackField d (fst x) (snd x) of
        Inl e \<Rightarrow> ([], Some e)
      | Inr pushed \<Rightarrow> (pushed @ fst (sweep d rest), snd (sweep d rest)))"

definition allInputs :: "document \<Rightarrow> (nat \<times> element) list" where
  "allInputs d = enumerate 0 (querySelectorAll (root d) textInputSel)"

definition fallbackSweep :: "document \<Rightarrow> FormField list" where
  "fallbackSweep d = fst (sweep d (allInputs d))"

definition fallbackThrown :: "document \<Rightarrow> error option" where
  "fallbackThrown d = snd (sweep d (allInputs d))"

text \<open>
  The descriptors that the discovery script pushes, in order. The script hands them
  over when nothing was raised; when the sweep raises, the script is rejected with
  the error.
\<close>

definition discover :: "document \<Rightarrow> FormField list" where
  "discover d = containerPass d @ fallbackSweep d"

definition discovered :: "document \<Rightarrow> error + FormField list" where
  "discovered d = (case fallbackThrown d of Some e \<Rightarrow> Inl e | None \<Rightarrow> Inr (discover d))"

section \<open>Application\<close>

text \<open>
  The values of a mapping: a string, a boolean, a sequence of strings, or \<open>null\<close>. A
  label with no key in the mapping reads as \<open>undefined\<close>, here \<^const>\<open>None\<close>.
\<close>

datatype jsvalue = JString string | JBoolean bool | JArray "string list" | JNull

type_synonym FormData = "string \<rightharpoonup> jsvalue"

fun String :: "jsvalue \<Rightarrow> string" where
  "String (JString s) = s"
| "String (JBoolean b) = (if b then ''true'' else ''false'')"
| "String (JArray xs) = join '','' xs"
| "String JNull = ''null''"

text \<open>
  A simulated activation. A checkbox flips; a radio becomes checked and the other
  radios of its name are unchecked (form ownership is not modelled). The call is
  recorded with the notifications.
\<close>

definition sameGroup :: "node \<Rightarrow> node \<Rightarrow> path set" where
  "sameGroup r n =
     (if nameProp n = [] then {}
      else fst ` set (filter (\<lambda>e. nameProp (snd e) = nameProp n) (querySelectorAll r radioSel)))"

definition click :: "element \<Rightarrow> document \<Rightarrow> document" where
  "click el d =
     d\<lparr>checkedProp :=
          (if checkboxSel (snd el) then (checkedProp d)(fst el := \<not> checkedProp d (fst el))
           else if radioSel (snd el)
             then (\<lambda>q. if q = fst el then True
                        else if q \<in> sameGroup (root d) (snd el) then False
                        else checkedProp d q)
           else checkedProp d),
        dispatched := dispatched d @ [(fst el, ''click'')]\<rparr>"

definition matches :: "string \<Rightarrow> string \<Rightarrow> bool" where
  "matches a b = (str_includes a b \<or> str_includes b a)"

text \<open>
  \<open>Array.prototype.find\<close> with a test that may raise: the first element that passes,
  or the error of the first test that raises before any passes.
\<close>

fun findE :: "('a \<Rightarrow> error + bool) \<Rightarrow> 'a list \<Rightarrow> error + 'a option" where
  "findE test [] = Inr None"
| "findE test (x # xs) =
     (case test x of
        Inl e \<Rightarrow> Inl e
      | Inr passes \<Rightarrow> if passes then Inr (Some x) else findE test xs)"

definition labelTest :: "error + string \<Rightarrow> string \<Rightarrow> error + bool" where
  "labelTest inferred fieldLabel =
     (case inferred of Inl e \<Rightarrow> Inl e | Inr l \<Rightarrow> Inr (matches l fieldLabel))"

subsection \<open>The page scripts, one per kind\<close>

definition fillText :: "string \<Rightarrow> string \<Rightarrow> document \<Rightarrow> error + document" where
  "fillText fieldLabel fieldValue d =
     (case findE (\<lambda>el. labelTest (findLabelText d el) fieldLabel)
             (querySelectorAll (root d) textControlSel) of
        Inl e \<Rightarrow> Inl e
      | Inr None \<Rightarrow> Inr d
      | Inr (Some input) \<Rightarrow>
          Inr (d\<lparr>valueProp := (valueProp d)(fst input := fieldValue),
                 dispatched := dispatched d @ [(fst input, ''input''), (fst input, ''change'')]\<rparr>))"

definition radioQuestionText :: "node \<Rightarrow> element \<Rightarrow> string" where
  "radioQuestionText r el =
     orElse (case closest r questionContainerSel (fst el) of
               None \<Rightarrow> None
             | Some container \<Rightarrow> titleText container) []"

definition radioOwnLabel :: "node \<Rightarrow> element \<Rightarrow> string" where
  "radioOwnLabel r el = orElse (closestLabelText r (fst el)) []"

definition radioTest :: "node \<Rightarrow> string \<Rightarrow> string \<Rightarrow> element \<Rightarrow> bool" where
  "radioTest r fieldLabel fieldValue el =
     (matches (radioOwnLabel r el) fieldValue
      \<and> str_includes (radioQuestionText r el) fieldLabel)"

definition fillRadio :: "string \<Rightarrow> string \<Rightarrow> document \<Rightarrow> document" where
  "fillRadio fieldLabel fieldValue d =
     (case find (radioTest (root d) fieldLabel fieldValue)
             (querySelectorAll (root d) radioSel) of
        None \<Rightarrow> d
      | Some radio \<Rightarrow> click radio d)"

definition fillCheckbox :: "string \<Rightarrow> bool \<Rightarrow> document \<Rightarrow> error + document" where
  "fillCheckbox fieldLabel shouldCheck d =
     (case findE (\<lambda>el. labelTest (findLabelTextChoice d el) fieldLabel)
             (querySelectorAll (root d) checkboxSel) of
        Inl e \<Rightarrow> Inl e
      | Inr None \<Rightarrow> Inr d
      | Inr (Some checkbox) \<Rightarrow>
          (let isChecked = checkedProp d (fst checkbox)
           in if isChecked \<noteq> shouldCheck then Inr (click checkbox d) else Inr d))"

definition optionValue :: "node \<Rightarrow> string" where
  "optionValue opt =
     (case getAttribute opt ''value'' of None \<Rightarrow> optionTextOf opt | Some v \<Rightarrow> v)"

definition fillSelect :: "string \<Rightarrow> string \<Rightarrow> document \<Rightarrow> error + document" where
  "fillSelect fieldLabel fieldValue d =
     (case findE (\<lambda>el. labelTest (findLabelTextChoice d el) fieldLabel)
             (querySelectorAll (root d) selectSel) of
        Inl e \<Rightarrow> Inl e
      | Inr None \<Rightarrow> Inr d
      | Inr (Some select) \<Rightarrow>
          Inr (d\<lparr>valueProp := (valueProp d)
                 (fst select := (if fieldValue \<in> set (map optionValue (optionNodes (snd select)))
                                 then fieldValue else [])),
                 dispatched := dispatched d @ [(fst select, ''change'')]\<rparr>))"

subsection \<open>The session and the loop over the descriptors\<close>

text \<open>
  A page script runs through the browser session, which is outside the program: when
  the session is gone the call is rejected, and when the script raises the call is
  rejected with its error. Either way the document is left as it is.
\<close>

record page =
  content :: document
  closed :: bool

definition evaluate :: "page \<Rightarrow> (document \<Rightarrow> error + document) \<Rightarrow> error + page" where
  "evaluate pg script =
     (if closed pg then Inl SessionFailed
      else case script (content pg) of
             Inl e \<Rightarrow> Inl e
           | Inr d \<Rightarrow> Inr (pg\<lparr>content := d\<rparr>))"

definition hasOption :: "FormField \<Rightarrow> string \<Rightarrow> bool" where
  "hasOption field v = (case options field of None \<Rightarrow> False | Some os \<Rightarrow> v \<in> set os)"

definition fillField :: "page \<Rightarrow> FormField \<Rightarrow> jsvalue \<Rightarrow> error + page" where
  "fillField pg field v =
     (if type field = ''text'' \<or> type field = ''textarea''
        then evaluate pg (fillText (label field) (String v))
      else if type field = ''radio''
        then (if hasOption field (String v)
                then evaluate pg (\<lambda>d. Inr (fillRadio (label field) (String v) d))
                else Inr pg)
      else if type field = ''checkbox''
        then (case v of JBoolean shouldCheck \<Rightarrow> evaluate pg (fillCheckbox (label field) shouldCheck)
              | _ \<Rightarrow> Inr pg)
      else if type field = ''select''
        then (if hasOption field (String v)
                then evaluate pg (fillSelect (label field) (String v)) else Inr pg)
      else Inr pg)"

text \<open>
  The loop returns the page and the labels of the descriptors whose step was caught
  and logged, in order. A caught step leaves the page as it was.
\<close>

fun fillForm :: "page \<Rightarrow> FormField list \<Rightarrow> FormData \<Rightarrow> page \<times> string list" where
  "fillForm pg [] formData = (pg, [])"
| "fillForm pg (field # rest) formData =
     (case formData (label field) of
        None \<Rightarrow> fillForm pg rest formData
      | Some JNull \<Rightarrow> fillForm pg rest formData
      | Some v \<Rightarrow>
          (case fillField pg field v of
             Inr pg' \<Rightarrow> fillForm pg' rest formData
           | Inl e \<Rightarrow> (let (pg', logged) = fillForm pg rest formData
                       in (pg', label field # logged))))"

section \<open>The entry point\<close>

text \<open>
  The collaborators of a run: whether the browser starts, the page a location opens
  (if any), and the value-mapping provider, which gets the descriptors and the context
  hint. The run returns its result and the calls it made, in order.
\<close>

record env =
  launch :: bool
  goto :: "string \<Rightarrow> page option"
  generateFormData :: "FormField list \<Rightarrow> string option \<Rightarrow> error + FormData"

datatype call = InitBrowser | NavigateToForm string | ExtractFormFields
  | GenerateFormData "FormField list" | FillForm

definition extractFormFields :: "page \<Rightarrow> error + FormField list" where
  "extractFormFields pg = (if closed pg then Inl SessionFailed else discovered (content pg))"

definition initBrowser :: "env \<Rightarrow> error + bool" where
  "initBrowser e = (if launch e then Inr True else Inl SessionFailed)"

definition navigateToForm :: "env \<Rightarrow> bool \<Rightarrow> string \<Rightarrow> error + page" where
  "navigateToForm e browser url =
     (if \<not> browser then Inl BrowserNotInitialized
      else case goto e url of None \<Rightarrow> Inl SessionFailed | Some pg \<Rightarrow> Inr pg)"

definition autoFillGoogleForm ::
  "env \<Rightarrow> string \<Rightarrow> string option \<Rightarrow> (error + page \<times> string list) \<times> call list" where
  "autoFillGoogleForm e formUrl context =
     (case initBrowser e of
        Inl err \<Rightarrow> (Inl err, [InitBrowser])
      | Inr browser \<Rightarrow>
     (case navigateToForm e browser formUrl of
        Inl err \<Rightarrow> (Inl err, [InitBrowser, NavigateToForm formUrl])
      | Inr pg \<Rightarrow>
     (case extractFormFields pg of
        Inl err \<Rightarrow> (Inl err, [InitBrowser, NavigateToForm formUrl, ExtractFormFields])
      | Inr found \<Rightarrow>
         if length found = 0
           then (Inr (pg, []), [InitBrowser, NavigateToForm formUrl, ExtractFormFields])
         else
     (case generateFormData e found context of
        Inl err \<Rightarrow> (Inl err, [InitBrowser, NavigateToForm formUrl, ExtractFormFields,
                               GenerateFormData found])
      | Inr formData \<Rightarrow>
          (Inr (fillForm pg found formData),
           [InitBrowser, NavigateToForm formUrl, ExtractFormFields,
            GenerateFormData found, FillForm])))))"

section \<open>Notions used in the statements and proofs\<close>

text \<open>
  The names that one pass over a container gives are \<open>question_\<close>, the container index
  and one of these endings: nothing for the radio group, and the kind with the running
  index for each checkbox, text control and dropdown.
\<close>

definition nameSuffixes :: "bool \<Rightarrow> nat \<Rightarrow> nat \<Rightarrow> nat \<Rightarrow> string list" where
  "nameSuffixes r nc nt ns =
     (if r then [[]] else [])
     @ map (\<lambda>k. ''_checkbox_'' @ dec k) [0..<nc]
     @ map (\<lambda>k. ''_text_'' @ dec k) [0..<nt]
     @ map (\<lambda>k. ''_select_'' @ dec k) [0..<ns]"

text \<open>The digits after \<open>question_\<close> in a name: the container index it was made from.\<close>

definition is_digit :: "char \<Rightarrow> bool" where
  "is_digit c = (c \<in> set ''0123456789'')"

definition containerKey :: "string \<Rightarrow> string" where
  "containerKey s = takeWhile is_digit (drop 9 s)"

text \<open>The loop over the containers, started at index \<open>m\<close>.\<close>

definition containersFrom :: "document \<Rightarrow> nat \<Rightarrow> element list \<Rightarrow> FormField list" where
  "containersFrom d m cs =
     concat (map (\<lambda>(containerIndex, container). containerFields d containerIndex container)
                 (enumerate m cs))"

text \<open>
  The controls that the fallback sweep does not skip, with their indexes in the sweep,
  the name each gives to its descriptor, and the name attributes found among them.
\<close>

definition sweptControls :: "document \<Rightarrow> (nat \<times> element) list" where
  "sweptControls d =
     filter (\<lambda>x. closest (root d) questionContainerSel (fst (snd x)) = None) (allInputs d)"

definition sweptName :: "nat \<times> element \<Rightarrow> string" where
  "sweptName x = orElse (Some (nameProp (snd (snd x)))) (''field_'' @ dec (fst x))"

definition nameAttributes :: "(nat \<times> element) list \<Rightarrow> string list" where
  "nameAttributes xs = filter (\<lambda>n. n \<noteq> []) (map (\<lambda>x. nameProp (snd (snd x))) xs)"


section \<open>Example documents\<close>

text \<open>
  A document with the given tree, nothing typed or checked, nothing notified yet; a
  reshaped label selector is a syntax error in it. Then two text inputs outside every
  container that carry the same \<open>name\<close> attribute.
\<close>

definition blank :: "node \<Rightarrow> document" where
  "blank r = \<lparr>root = r, valueProp = (\<lambda>p. []), checkedProp = (\<lambda>p. False), dispatched = [],
     reshapedLookup = (\<lambda>i. Inl SyntaxError)\<rparr>"

definition sameNameDoc :: document where
  "sameNameDoc = blank (Element ''form'' []
     [Element ''input'' [(''type'', ''text''), (''name'', ''q'')] [],
      Element ''input'' [(''type'', ''text''), (''name'', ''q'')] []])"

text \<open>A text input whose label is the element before it, outside every container.\<close>

definition siblingLabelDoc :: document where
  "siblingLabelDoc = blank (Element ''form'' []
     [Element ''label'' [] [Text ''Name''],
      Element ''input'' [(''type'', ''text'')] []])"

definition nameInput :: element where
  "nameInput = ([1], Element ''input'' [(''type'', ''text'')] [])"

text \<open>One container with the heading "Favorite color" and three labelled radios.\<close>

definition radioNode :: node where
  "radioNode = Element ''input'' [(''type'', ''radio'')] []"

definition colorContainer :: element where
  "colorContainer = ([0], Element ''div'' [(''class'', ''m2'')]
        [Element ''h2'' [] [Text ''Favorite color''],
         Element ''label'' [] [radioNode, Text ''Red''],
         Element ''label'' [] [radioNode, Text ''Green''],
         Element ''label'' [] [radioNode, Text ''Blue'']])"

definition colorDoc :: document where
  "colorDoc = blank (Element ''body'' [] [snd colorContainer])"

definition colorField :: FormField where
  "colorField = \<lparr>type = ''radio'', label = ''Favorite color'', name = ''question_0'',
     required = False, options = Some [''Red'', ''Green'', ''Blue''], element = [0, 1, 0]\<rparr>"

definition greenRadio :: element where
  "greenRadio = ([0, 2, 0], radioNode)"

text \<open>
  One container with the heading "Interests", two labelled checkboxes and a text input,
  followed by a text input outside the container.
\<close>

definition checkboxNode :: node where
  "checkboxNode = Element ''input'' [(''type'', ''checkbox'')] []"

definition interestsContainer :: element where
  "interestsContainer = ([0], Element ''div'' [(''class'', ''m2'')]
        [Element ''h3'' [] [Text ''Interests''],
         Element ''label'' [] [checkboxNode, Text ''Music''],
         Element ''label'' [] [checkboxNode, Text ''Sport''],
         Element ''input'' [(''type'', ''text'')] []])"

definition interestsDoc :: document where
  "interestsDoc = blank (Element ''body'' []
     [snd interestsContainer,
      Element ''input'' [(''type'', ''text''), (''aria-label'', ''Comments''),
         (''name'', ''comments'')] []])"

definition musicField :: FormField where
  "musicField = \<lparr>type = ''checkbox'', label = ''Interests - Music'',
     name = ''question_0_checkbox_0'', required = False, options = None, element = [0, 1, 0]\<rparr>"

definition phoneField :: FormField where
  "phoneField = \<lparr>type = ''text'', label = ''Phone'',
     name = ''phone'', required = False, options = None, element = [7]\<rparr>"

definition musicData :: FormData where
  "musicData = [''Interests - Music'' \<mapsto> JBoolean True]"


text \<open>A document with no control, and a run whose location opens it.\<close>

definition emptyDoc :: document where
  "emptyDoc = blank (Element ''body'' [] [Element ''p'' [] [Text ''Nothing to fill'']])"

definition silentEnv :: env where
  "silentEnv = \<lparr>launch = True, goto = (\<lambda>url. Some \<lparr>content = emptyDoc, closed = False\<rparr>),
     generateFormData = (\<lambda>found context. Inl (ProviderFailed ''no reply''))\<rparr>"

definition openPage :: "document \<Rightarrow> page" where
  "openPage d = \<lparr>content = d, closed = False\<rparr>"

text \<open>A labelled radio outside every container.\<close>

definition looseRadioDoc :: document where
  "looseRadioDoc = blank (Element ''body'' [] [Element ''label'' [] [radioNode, Text ''Green'']])"

definition looseRadio :: element where
  "looseRadio = ([0, 0], radioNode)"


section \<open>Decimal indexes\<close>

lemma digit_char_inj: "a < 10 \<Longrightarrow> b < 10 \<Longrightarrow> digit_char a = digit_char b \<Longrightarrow> a = b"
proof -
  assume a: "a < 10" and b: "b < 10" and e: "digit_char a = digit_char b"
  have d: "distinct ''0123456789''" by simp
  have "a < length ''0123456789''" "b < length ''0123456789''" using a b by simp_all
  with d e show "a = b" unfolding digit_char_def by (simp only: nth_eq_iff_index_eq)
qed

lemma is_digit_digit_char: "a < 10 \<Longrightarrow> is_digit (digit_char a)"
proof -
  assume "a < 10"
  then have "a < length ''0123456789''" by simp
  then show ?thesis unfolding is_digit_def digit_char_def by (rule nth_mem)
qed

lemma dec_digits: "\<forall>c \<in> set (dec n). is_digit c"
proof (induction n rule: dec.induct)
  case (1 n)
  show ?case
  proof (cases "n < 10")
    case True
    then show ?thesis by (simp add: dec.simps [of n] is_digit_digit_char)
  next
    case False
    then show ?thesis using 1 by (simp add: dec.simps [of n] is_digit_digit_char)
  qed
qed

lemma dec_not_Nil: "dec n \<noteq> []"
  by (simp add: dec.simps [of n])

lemma dec_inj: "dec n = dec m \<Longrightarrow> n = m"
proof (induction n arbitrary: m rule: dec.induct)
  case (1 n)
  show ?case
  proof (cases "n < 10")
    case True
    show ?thesis
    proof (cases "m < 10")
      case True
      with \<open>n < 10\<close> 1(2) show ?thesis
        by (simp add: dec.simps [of n] dec.simps [of m] digit_char_inj)
    next
      case False
      with \<open>n < 10\<close> 1(2) show ?thesis
        by (simp add: dec.simps [of n] dec.simps [of m] dec_not_Nil [THEN not_sym])
    qed
  next
    case False
    show ?thesis
    proof (cases "m < 10")
      case True
      with False 1(2) show ?thesis
        by (simp add: dec.simps [of n] dec.simps [of m] dec_not_Nil)
    next
      case m: False
      from False m 1(2) have e: "dec (n div 10) @ [digit_char (n mod 10)] = dec (m div 10) @ [digit_char (m mod 10)]"
        by (simp add: dec.simps [of n] dec.simps [of m])
      then have "dec (n div 10) = dec (m div 10)" and d: "digit_char (n mod 10) = digit_char (m mod 10)"
        by simp_all
      then have "n div 10 = m div 10" using 1(1) False by blast
      moreover have "n mod 10 = m mod 10" using d by (intro digit_char_inj) simp_all
      ultimately show ?thesis by (metis div_mult_mod_eq)
    qed
  qed
qed

lemma not_digit_underscore: "\<not> is_digit CHR ''_''"
  by (simp add: is_digit_def)

lemma takeWhile_dec: "\<not> is_digit c \<Longrightarrow> takeWhile is_digit (dec n @ c # s) = dec n"
  using dec_digits [of n] by (simp add: takeWhile_append2)

lemma takeWhile_dec_end: "takeWhile is_digit (dec n) = dec n"
  using dec_digits [of n] by (simp add: takeWhile_eq_all_conv)

section \<open>Identifiers of one discovery pass\<close>

lemma map_enumerate_index: "map (\<lambda>x. g (fst x)) (enumerate n xs) = map g [n..<n + length xs]"
proof -
  have "map (\<lambda>x. g (fst x)) (enumerate n xs) = map g (map fst (enumerate n xs))"
    by (simp only: map_map comp_def)
  also have "map fst (enumerate n xs) = [n..<n + length xs]"
    by (rule map_fst_enumerate)
  finally show ?thesis .
qed

lemma names_containerFields:
  "map name (containerFields d i c) =
     map (\<lambda>s. ''question_'' @ dec i @ s)
       (nameSuffixes (querySelectorAllIn c radioSel \<noteq> [])
          (length (querySelectorAllIn c checkboxSel))
          (length (querySelectorAllIn c textInputSel))
          (length (querySelectorAllIn c selectSel)))"
proof -
  have r: "map name (radioGroup d i c) =
      map (\<lambda>s. ''question_'' @ dec i @ s) (if querySelectorAllIn c radioSel \<noteq> [] then [[]] else [])"
    by (simp add: radioGroup_def Let_def split: list.split)
  have cb: "map name (checkboxFields d i c) =
      map (\<lambda>s. ''question_'' @ dec i @ s)
        (map (\<lambda>k. ''_checkbox_'' @ dec k) [0..<length (querySelectorAllIn c checkboxSel)])"
    using map_enumerate_index [of "\<lambda>k. ''question_'' @ dec i @ ''_checkbox_'' @ dec k" 0 "querySelectorAllIn c checkboxSel"]
    by (simp add: checkboxFields_def Let_def comp_def case_prod_beta)
  have t: "map name (textFields d i c) =
      map (\<lambda>s. ''question_'' @ dec i @ s)
        (map (\<lambda>k. ''_text_'' @ dec k) [0..<length (querySelectorAllIn c textInputSel)])"
    using map_enumerate_index [of "\<lambda>k. ''question_'' @ dec i @ ''_text_'' @ dec k" 0 "querySelectorAllIn c textInputSel"]
    by (simp add: textFields_def Let_def comp_def case_prod_beta)
  have s: "map name (selectFields d i c) =
      map (\<lambda>s. ''question_'' @ dec i @ s)
        (map (\<lambda>k. ''_select_'' @ dec k) [0..<length (querySelectorAllIn c selectSel)])"
    using map_enumerate_index [of "\<lambda>k. ''question_'' @ dec i @ ''_select_'' @ dec k" 0 "querySelectorAllIn c selectSel"]
    by (simp add: selectFields_def Let_def comp_def case_prod_beta)
  show ?thesis
    unfolding containerFields_def nameSuffixes_def map_append r cb t s by simp
qed

lemma distinct_suffixes_gen:
  "a \<noteq> b \<Longrightarrow> a \<noteq> c \<Longrightarrow> b \<noteq> c \<Longrightarrow>
   distinct ((if r then [[]] else [])
     @ map (\<lambda>k. u # a # p1 @ dec k) [0..<nc]
     @ map (\<lambda>k. u # b # p2 @ dec k) [0..<nt]
     @ map (\<lambda>k. u # c # p3 @ dec k) [0..<ns])"
  by (auto simp: distinct_map inj_on_def dec_inj)

lemma distinct_nameSuffixes: "distinct (nameSuffixes r nc nt ns)"
  using distinct_suffixes_gen [of "CHR ''c''" "CHR ''t''" "CHR ''s''" r "CHR ''_''"
    "''heckbox_''" nc "''ext_''" nt "''elect_''" ns]
  unfolding nameSuffixes_def by simp

lemma suffix_shape:
  "s \<in> set (nameSuffixes r nc nt ns) \<Longrightarrow> s = [] \<or> (\<exists>t. s = CHR ''_'' # t)"
  unfolding nameSuffixes_def by (auto split: if_splits)

lemma containerKey_name:
  "s \<in> set (nameSuffixes r nc nt ns) \<Longrightarrow> containerKey (''question_'' @ dec i @ s) = dec i"
  using suffix_shape [of s r nc nt ns]
  by (auto simp: containerKey_def takeWhile_dec takeWhile_dec_end not_digit_underscore)


lemma distinct_names_containerFields: "distinct (map name (containerFields d i c))"
  unfolding names_containerFields
  by (simp add: distinct_map distinct_nameSuffixes inj_on_def)

lemma containerKey_containerFields:
  "f \<in> set (containerFields d i c) \<Longrightarrow> containerKey (name f) = dec i"
proof -
  assume "f \<in> set (containerFields d i c)"
  then have "name f \<in> set (map name (containerFields d i c))" by simp
  then obtain s where "name f = ''question_'' @ dec i @ s"
    and "s \<in> set (nameSuffixes (querySelectorAllIn c radioSel \<noteq> [])
          (length (querySelectorAllIn c checkboxSel))
          (length (querySelectorAllIn c textInputSel))
          (length (querySelectorAllIn c selectSel)))"
    unfolding names_containerFields by auto
  then show ?thesis by (simp only: containerKey_name)
qed

lemma containersFrom_Nil: "containersFrom d m [] = []"
  by (simp add: containersFrom_def)

lemma containersFrom_Cons:
  "containersFrom d m (c # cs) = containerFields d m c @ containersFrom d (Suc m) cs"
  by (simp add: containersFrom_def)

lemma containerKey_containersFrom:
  "f \<in> set (containersFrom d m cs) \<Longrightarrow> \<exists>j\<ge>m. containerKey (name f) = dec j"
proof (induction cs arbitrary: m)
  case Nil
  then show ?case by (simp add: containersFrom_Nil)
next
  case (Cons c cs)
  from Cons.prems have "f \<in> set (containerFields d m c) \<or> f \<in> set (containersFrom d (Suc m) cs)"
    by (simp add: containersFrom_Cons)
  then show ?case
  proof
    assume "f \<in> set (containerFields d m c)"
    then have "containerKey (name f) = dec m" by (rule containerKey_containerFields)
    then show ?thesis by blast
  next
    assume "f \<in> set (containersFrom d (Suc m) cs)"
    then obtain j where "j \<ge> Suc m" "containerKey (name f) = dec j"
      using Cons.IH by blast
    then show ?thesis by (meson Suc_leD)
  qed
qed

lemma distinct_names_containersFrom: "distinct (map name (containersFrom d m cs))"
proof (induction cs arbitrary: m)
  case Nil
  show ?case by (simp add: containersFrom_Nil)
next
  case (Cons c cs)
  have disj: "set (map name (containerFields d m c)) \<inter> set (map name (containersFrom d (Suc m) cs)) = {}"
  proof (rule ccontr)
    assume "\<not> ?thesis"
    then obtain f g where f: "f \<in> set (containerFields d m c)"
      and g: "g \<in> set (containersFrom d (Suc m) cs)" and e: "name f = name g"
      by auto
    from f have "containerKey (name f) = dec m" by (rule containerKey_containerFields)
    moreover from g obtain j where "j \<ge> Suc m" "containerKey (name g) = dec j"
      using containerKey_containersFrom by blast
    ultimately have "dec m = dec j" using e by simp
    then have "m = j" by (rule dec_inj)
    with \<open>j \<ge> Suc m\<close> show False by simp
  qed
  show ?case
    unfolding containersFrom_Cons map_append distinct_append
    using distinct_names_containerFields Cons.IH disj by blast
qed

lemma containerPass_containersFrom: "containerPass d = containersFrom d 0 (questionContainers d)"
  by (simp add: containerPass_def containersFrom_def)

section \<open>The names of the fallback sweep\<close>

lemma fallbackField_skip:
  "closest (root d) questionContainerSel (fst x) \<noteq> None \<Longrightarrow> fallbackField d i x = Inr []"
  by (simp add: fallbackField_def)

lemma fallbackField_Inl:
  "fallbackField d i x = Inl e \<Longrightarrow> closest (root d) questionContainerSel (fst x) = None"
  by (cases "closest (root d) questionContainerSel (fst x)") (simp_all add: fallbackField_def)

lemma fallbackField_Inr:
  assumes "fallbackField d i x = Inr pushed"
  shows "pushed = [] \<and> closest (root d) questionContainerSel (fst x) \<noteq> None
    \<or> (\<exists>f. pushed = [f] \<and> closest (root d) questionContainerSel (fst x) = None
          \<and> name f = sweptName (i, x) \<and> element f = fst x
          \<and> type f = textKind (snd x) \<and> findLabelForInput d x = Inr (label f))"
proof (cases "closest (root d) questionContainerSel (fst x)")
  case (Some c)
  with assms show ?thesis by (simp add: fallbackField_def)
next
  case None
  with assms show ?thesis
    by (cases "findLabelForInput d x") (auto simp: fallbackField_def sweptName_def)
qed

lemma sweep_mem:
  assumes "f \<in> set (fst (sweep d xs))"
  shows "\<exists>x \<in> set xs. fallbackField d (fst x) (snd x) = Inr [f]"
  using assms
proof (induction xs)
  case Nil
  then show ?case by simp
next
  case (Cons x xs)
  show ?case
  proof (cases "fallbackField d (fst x) (snd x)")
    case (Inl e)
    with Cons.prems show ?thesis by simp
  next
    case (Inr pushed)
    with Cons.prems have "f \<in> set pushed \<or> f \<in> set (fst (sweep d xs))" by simp
    then show ?thesis
    proof
      assume "f \<in> set pushed"
      with fallbackField_Inr [OF Inr] have "pushed = [f]" by auto
      with Inr show ?thesis by simp
    next
      assume "f \<in> set (fst (sweep d xs))"
      with Cons.IH show ?thesis by auto
    qed
  qed
qed

lemma names_sweep:
  "map name (fst (sweep d xs)) =
   map sweptName (take (length (fst (sweep d xs)))
     (filter (\<lambda>x. closest (root d) questionContainerSel (fst (snd x)) = None) xs))"
proof (induction xs)
  case Nil
  show ?case by simp
next
  case (Cons x xs)
  show ?case
  proof (cases "fallbackField d (fst x) (snd x)")
    case (Inl e)
    then show ?thesis by simp
  next
    case (Inr pushed)
    from fallbackField_Inr [OF Inr] show ?thesis
    proof (elim disjE conjE exE)
      assume "pushed = []" "closest (root d) questionContainerSel (fst (snd x)) \<noteq> None"
      with Inr Cons.IH show ?thesis by auto
    next
      fix f assume "pushed = [f]" "closest (root d) questionContainerSel (fst (snd x)) = None"
        "name f = sweptName (fst x, snd x)"
      with Inr Cons.IH show ?thesis by simp
    qed
  qed
qed

lemma names_fallbackSweep:
  "map name (fallbackSweep d) =
   map sweptName (take (length (fallbackSweep d)) (sweptControls d))"
  unfolding fallbackSweep_def sweptControls_def by (rule names_sweep)

lemma distinct_sweptNames:
  assumes "distinct (map fst xs)" and "distinct (nameAttributes xs)"
    and "\<And>n. n \<in> set (nameAttributes xs) \<Longrightarrow> \<not> prefix ''field_'' n"
  shows "distinct (map sweptName xs)"
  using assms
proof (induction xs)
  case Nil
  show ?case by simp
next
  case (Cons x xs)
  have tl: "distinct (map sweptName xs)"
    using Cons by (auto simp: nameAttributes_def split: if_splits)
  have "sweptName x \<noteq> sweptName y" if y: "y \<in> set xs" for y
  proof -
    have fxy: "fst x \<noteq> fst y" using Cons.prems(1) y by auto
    have attr: "nameProp (snd (snd z)) \<in> set (nameAttributes (x # xs))"
      if "z \<in> set (x # xs)" "nameProp (snd (snd z)) \<noteq> []" for z
      using that by (auto simp: nameAttributes_def)
    consider (nn) "nameProp (snd (snd x)) \<noteq> []" "nameProp (snd (snd y)) \<noteq> []"
      | (nu) "nameProp (snd (snd x)) \<noteq> []" "nameProp (snd (snd y)) = []"
      | (un) "nameProp (snd (snd x)) = []" "nameProp (snd (snd y)) \<noteq> []"
      | (uu) "nameProp (snd (snd x)) = []" "nameProp (snd (snd y)) = []"
      by blast
    note cases4 = this
    have named: "sweptName z = nameProp (snd (snd z)) \<and> \<not> prefix ''field_'' (sweptName z)"
      if "z \<in> set (x # xs)" "nameProp (snd (snd z)) \<noteq> []" for z
    proof -
      have "sweptName z = nameProp (snd (snd z))"
        using that(2) by (simp add: sweptName_def orElse_def)
      moreover have "\<not> prefix ''field_'' (nameProp (snd (snd z)))"
        using Cons.prems(3) attr [OF that] by simp
      ultimately show ?thesis by simp
    qed
    have unnamed: "sweptName z = ''field_'' @ dec (fst z) \<and> prefix ''field_'' (sweptName z)"
      if "nameProp (snd (snd z)) = []" for z
    proof -
      have e: "sweptName z = ''field_'' @ dec (fst z)"
        using that by (simp add: sweptName_def orElse_def)
      have "prefix ''field_'' (''field_'' @ dec (fst z))" by (rule prefixI) (rule refl)
      with e show ?thesis by simp
    qed
    from cases4 show ?thesis
    proof cases
      case nn
      then have "nameProp (snd (snd y)) \<in> set (nameAttributes xs)"
        using y by (auto simp: nameAttributes_def)
      moreover have "nameProp (snd (snd x)) \<notin> set (nameAttributes xs)"
        using Cons.prems(2) nn by (simp add: nameAttributes_def)
      ultimately have "nameProp (snd (snd x)) \<noteq> nameProp (snd (snd y))" by metis
      with named [of x] named [of y] nn y show ?thesis by simp
    next
      case nu
      with named [of x] unnamed [of y] show ?thesis by (metis list.set_intros(1))
    next
      case un
      with named [of y] unnamed [of x] y show ?thesis by (metis list.set_intros(2))
    next
      case uu
      have "dec (fst x) \<noteq> dec (fst y)" using fxy dec_inj by blast
      with unnamed [of x] unnamed [of y] uu show ?thesis by simp
    qed
  qed
  with tl show ?case by auto
qed


lemma distinct_sweptControls_indexes: "distinct (map fst (sweptControls d))"
proof -
  have "distinct (map fst (allInputs d))" by (simp add: allInputs_def)
  then show ?thesis unfolding sweptControls_def by (rule distinct_map_filter)
qed

lemma containerPass_mem:
  assumes "f \<in> set (containerPass d)"
  obtains i c where "c \<in> set (questionContainers d)" "f \<in> set (containerFields d i c)"
proof -
  from assms obtain i c where "(i, c) \<in> set (enumerate 0 (questionContainers d))"
    and "f \<in> set (containerFields d i c)"
    by (auto simp: containerPass_def)
  moreover from this have "c \<in> set (questionContainers d)"
    by (auto simp: in_set_enumerate_eq)
  ultimately show ?thesis using that by blast
qed

lemma prefix_question_containerPass:
  assumes "f \<in> set (containerPass d)"
  shows "prefix ''question_'' (name f)"
proof -
  from assms obtain i c where "f \<in> set (containerFields d i c)"
    by (rule containerPass_mem)
  then have "name f \<in> set (map name (containerFields d i c))" by simp
  then obtain s where "name f = ''question_'' @ (dec i @ s)"
    unfolding names_containerFields by auto
  then show ?thesis by (simp only: prefixI)
qed

lemma no_question_sweptName:
  assumes "nameProp (snd (snd x)) \<noteq> [] \<Longrightarrow> \<not> prefix ''question_'' (nameProp (snd (snd x)))"
  shows "\<not> prefix ''question_'' (sweptName x)"
proof (cases "nameProp (snd (snd x)) = []")
  case True
  then have "sweptName x = ''field_'' @ dec (fst x)" by (simp add: sweptName_def orElse_def)
  then show ?thesis by simp
next
  case False
  then have "sweptName x = nameProp (snd (snd x))" by (simp add: sweptName_def orElse_def)
  with assms False show ?thesis by simp
qed

lemma distinct_names_discover:
  assumes "distinct (nameAttributes (sweptControls d))"
    and "\<forall>n \<in> set (nameAttributes (sweptControls d)).
           \<not> prefix ''question_'' n \<and> \<not> prefix ''field_'' n"
  shows "distinct (map name (discover d))"
proof -
  let ?k = "length (fallbackSweep d)"
  have all: "distinct (map sweptName (sweptControls d))"
    using distinct_sweptControls_indexes assms by (intro distinct_sweptNames) auto
  have "distinct (take ?k (map sweptName (sweptControls d)))"
    using all by (rule distinct_take)
  then have sw: "distinct (map name (fallbackSweep d))"
    by (simp only: names_fallbackSweep take_map)
  have "\<not> prefix ''question_'' n" if "n \<in> set (map name (fallbackSweep d))" for n
  proof -
    from that have "n \<in> set (map sweptName (sweptControls d))"
      unfolding names_fallbackSweep by (auto dest: in_set_takeD)
    then obtain x where x: "x \<in> set (sweptControls d)" and n: "n = sweptName x" by auto
    have "\<not> prefix ''question_'' (nameProp (snd (snd x)))" if "nameProp (snd (snd x)) \<noteq> []"
    proof -
      from x that have "nameProp (snd (snd x)) \<in> set (nameAttributes (sweptControls d))"
        by (auto simp: nameAttributes_def)
      with assms(2) show ?thesis by blast
    qed
    then show ?thesis unfolding n by (rule no_question_sweptName)
  qed
  moreover have "prefix ''question_'' n" if "n \<in> set (map name (containerPass d))" for n
    using that prefix_question_containerPass by auto
  ultimately have "set (map name (containerPass d)) \<inter> set (map name (fallbackSweep d)) = {}"
    by blast
  with sw distinct_names_containersFrom [of d 0 "questionContainers d"] show ?thesis
    by (simp add: discover_def containerPass_containersFrom)
qed

text \<open>
  C2, as the code has it. In every discovery pass the identifiers of the descriptors
  that the container pass emits are pairwise distinct, whatever their labels; each is
  \<open>question_\<close>, the index of the container and an ending that is empty for the radio
  group and otherwise the kind and the running index of the control among the
  container's controls of that kind. A descriptor of the fallback sweep is named by its
  control's \<open>name\<close> attribute, or by \<open>field_\<close> and its index in the sweep when that is
  empty. The identifiers of the whole pass are pairwise distinct whenever the name
  attributes of the swept controls are pairwise distinct and none of them begins with
  \<open>question_\<close> or \<open>field_\<close>, so in particular when no swept control has one; they are
  pairwise distinct exactly when the names of the sweep are pairwise distinct and none
  of them is an identifier of the container pass.
\<close>

theorem discovery_names_distinct:
  "distinct (map name (containerPass d))
   \<and> map name (containerFields d i c) =
       map (\<lambda>s. ''question_'' @ dec i @ s)
         (nameSuffixes (querySelectorAllIn c radioSel \<noteq> [])
            (length (querySelectorAllIn c checkboxSel))
            (length (querySelectorAllIn c textInputSel))
            (length (querySelectorAllIn c selectSel)))
   \<and> map name (fallbackSweep d) =
       map sweptName (take (length (fallbackSweep d)) (sweptControls d))
   \<and> (distinct (nameAttributes (sweptControls d))
        \<and> (\<forall>n \<in> set (nameAttributes (sweptControls d)).
              \<not> prefix ''question_'' n \<and> \<not> prefix ''field_'' n)
       \<longrightarrow> distinct (map name (discover d)))
   \<and> (nameAttributes (sweptControls d) = [] \<longrightarrow> distinct (map name (discover d)))
   \<and> distinct (map name (discover d)) =
       (distinct (map name (fallbackSweep d))
        \<and> set (map name (containerPass d)) \<inter> set (map name (fallbackSweep d)) = {})"
proof -
  have 1: "distinct (map name (containerPass d))"
    by (simp only: containerPass_containersFrom distinct_names_containersFrom)
  have 6: "distinct (map name (discover d)) =
       (distinct (map name (fallbackSweep d))
        \<and> set (map name (containerPass d)) \<inter> set (map name (fallbackSweep d)) = {})"
    using 1 by (simp add: discover_def)
  have 5: "distinct (map name (discover d))" if "nameAttributes (sweptControls d) = []"
    using that by (intro distinct_names_discover) simp_all
  from 1 5 6 show ?thesis
    using names_containerFields [of d i c] names_fallbackSweep [of d]
      distinct_names_discover [of d]
    by blast
qed

text \<open>
  C2 as stated fails: the fallback sweep names a descriptor by the control's \<open>name\<close>
  attribute, so two controls outside every container that share it collide.
\<close>

theorem fallback_names_collide:
  "map name (discover sameNameDoc) = [''q'', ''q''] \<and> \<not> distinct (map name (discover sameNameDoc))"
proof -
  have "map name (discover sameNameDoc) = [''q'', ''q'']"
    by code_simp
  then show ?thesis by simp
qed

section \<open>Positions in the document\<close>

lemma elems_sound:
  "(q, n) \<in> set (elems p m) \<Longrightarrow> node_at r p = Some m \<Longrightarrow>
     node_at r q = Some n \<and> isElement n \<and> (\<exists>s. q = s @ p)"
  "(q, n) \<in> set (elems_list p i cs) \<Longrightarrow>
     (\<And>j. j < length cs \<Longrightarrow> node_at r ((i + j) # p) = Some (cs ! j)) \<Longrightarrow>
     node_at r q = Some n \<and> isElement n \<and> (\<exists>s. q = s @ p \<and> s \<noteq> [])"
proof (induction p m and p i cs rule: elems_elems_list.induct)
  case (1 p s)
  then show ?case by simp
next
  case (2 p t as cs)
  from "2.prems"(1) consider "q = p" "n = Element t as cs" | "(q, n) \<in> set (elems_list p 0 cs)"
    by auto
  then show ?case
  proof cases
    case 1
    then show ?thesis using "2.prems"(2) by simp
  next
    case 2
    have "\<And>j. j < length cs \<Longrightarrow> node_at r ((0 + j) # p) = Some (cs ! j)"
      using "2.prems"(2) by simp
    with 2 "2.IH" have "node_at r q = Some n \<and> isElement n \<and> (\<exists>s. q = s @ p \<and> s \<noteq> [])"
      by blast
    then show ?thesis by blast
  qed
next
  case (3 p i)
  then show ?case by simp
next
  case (4 p i c cs)
  from "4.prems"(1) consider "(q, n) \<in> set (elems (i # p) c)" | "(q, n) \<in> set (elems_list p (Suc i) cs)"
    by auto
  then show ?case
  proof cases
    case 1
    have "node_at r (i # p) = Some c" using "4.prems"(2) [of 0] by simp
    with 1 "4.IH"(1) have "node_at r q = Some n \<and> isElement n \<and> (\<exists>s. q = s @ (i # p))"
      by blast
    then obtain s where "node_at r q = Some n" "isElement n" "q = (s @ [i]) @ p" by auto
    then show ?thesis by blast
  next
    case 2
    have "\<And>j. j < length cs \<Longrightarrow> node_at r ((Suc i + j) # p) = Some (cs ! j)"
      using "4.prems"(2) [of "Suc j" for j] by simp
    with 2 "4.IH"(2) show ?thesis by blast
  qed
qed

lemma closest_finds:
  "node_at r p = Some n \<Longrightarrow> isElement n \<Longrightarrow> sel n \<Longrightarrow> closest r sel (s @ p) \<noteq> None"
proof (induction s)
  case Nil
  then show ?case by (cases p) simp_all
next
  case (Cons a s)
  then show ?case by (simp split: option.split)
qed

lemma document_elems:
  "(q, n) \<in> set (elems [] r) \<Longrightarrow> node_at r q = Some n \<and> isElement n"
  using elems_sound(1) [of q n "[]" r r] by simp

lemma descendants_below:
  assumes "(p, c) \<in> set (elems [] r)" and "(q, n) \<in> set (descendants (p, c))"
  shows "node_at r q = Some n \<and> isElement n \<and> (\<exists>s. q = s @ p \<and> s \<noteq> [])"
proof -
  from assms(1) have c: "node_at r p = Some c" by (simp add: document_elems)
  have "\<And>j. j < length (childNodes c) \<Longrightarrow> node_at r ((0 + j) # p) = Some (childNodes c ! j)"
    using c by (cases c) simp_all
  with assms(2) show ?thesis
    unfolding descendants_def fst_conv snd_conv by (rule elems_sound(2))
qed


lemma closest_below_container:
  assumes "(p, c) \<in> set (querySelectorAll r sel)" and "x \<in> set (descendants (p, c))"
  shows "closest r sel (fst x) \<noteq> None"
proof -
  from assms(1) have pc: "(p, c) \<in> set (elems [] r)" and s: "sel c"
    by (simp_all add: querySelectorAll_def)
  from pc have c: "node_at r p = Some c" "isElement c" by (simp_all add: document_elems)
  from pc assms(2) obtain s' where "fst x = s' @ p"
    using descendants_below [of p c r "fst x" "snd x"] by auto
  with c s show ?thesis by (simp add: closest_finds)
qed


section \<open>Container pass and fallback sweep\<close>

lemma enumerate_snd_mem: "(k, x) \<in> set (enumerate n xs) \<Longrightarrow> x \<in> set xs"
  by (auto simp: in_set_enumerate_eq)

lemma containerFields_element:
  assumes "f \<in> set (containerFields d i c)"
  shows "element f \<in> fst ` set (descendants c)"
proof -
  have sub: "\<And>sel x. x \<in> set (querySelectorAllIn c sel) \<Longrightarrow> fst x \<in> fst ` set (descendants c)"
    by (simp add: querySelectorAllIn_def)
  from assms consider "f \<in> set (radioGroup d i c)" | "f \<in> set (checkboxFields d i c)"
    | "f \<in> set (textFields d i c)" | "f \<in> set (selectFields d i c)"
    by (auto simp: containerFields_def)
  then show ?thesis
  proof cases
    case 1
    show ?thesis
    proof (cases "querySelectorAllIn c radioSel")
      case Nil
      with 1 show ?thesis by (simp add: radioGroup_def)
    next
      case (Cons first others)
      with 1 have "element f = fst first" by (simp add: radioGroup_def)
      then show ?thesis using sub [of first radioSel] Cons by simp
    qed
  next
    case 2
    then obtain k x where "(k, x) \<in> set (enumerate 0 (querySelectorAllIn c checkboxSel))"
      and "element f = fst x"
      by (auto simp: checkboxFields_def Let_def)
    then show ?thesis using sub [of x checkboxSel] by (simp add: enumerate_snd_mem)
  next
    case 3
    then obtain k x where "(k, x) \<in> set (enumerate 0 (querySelectorAllIn c textInputSel))"
      and "element f = fst x"
      by (auto simp: textFields_def Let_def)
    then show ?thesis using sub [of x textInputSel] by (simp add: enumerate_snd_mem)
  next
    case 4
    then obtain k x where "(k, x) \<in> set (enumerate 0 (querySelectorAllIn c selectSel))"
      and "element f = fst x"
      by (auto simp: selectFields_def Let_def)
    then show ?thesis using sub [of x selectSel] by (simp add: enumerate_snd_mem)
  qed
qed

lemma containerPass_element:
  assumes "f \<in> set (containerPass d)"
  shows "element f \<in> (\<Union>c \<in> set (questionContainers d). fst ` set (descendants c))"
proof -
  from assms obtain i c where "(i, c) \<in> set (enumerate 0 (questionContainers d))"
    and "f \<in> set (containerFields d i c)"
    by (auto simp: containerPass_def)
  then have "c \<in> set (questionContainers d)" and "element f \<in> fst ` set (descendants c)"
    by (simp_all add: enumerate_snd_mem containerFields_element)
  then show ?thesis by blast
qed

lemma fallbackSweep_element:
  assumes "f \<in> set (fallbackSweep d)"
  shows "closest (root d) questionContainerSel (element f) = None"
proof -
  from assms obtain x where "fallbackField d (fst x) (snd x) = Inr [f]"
    unfolding fallbackSweep_def using sweep_mem by blast
  from fallbackField_Inr [OF this] show ?thesis by auto
qed

lemma claimed_not_swept:
  assumes "p \<in> (\<Union>c \<in> set (questionContainers d). fst ` set (descendants c))"
  shows "p \<notin> element ` set (fallbackSweep d)"
proof
  assume "p \<in> element ` set (fallbackSweep d)"
  then have none: "closest (root d) questionContainerSel p = None"
    using fallbackSweep_element by auto
  from assms obtain c x where c: "c \<in> set (querySelectorAll (root d) questionContainerSel)"
    and x: "x \<in> set (descendants c)" and p: "p = fst x"
    by (auto simp: questionContainers_def)
  from c x have "closest (root d) questionContainerSel (fst x) \<noteq> None"
    using closest_below_container [of "fst c" "snd c" "root d" questionContainerSel x] by simp
  with none p show False by simp
qed

text \<open>
  C3: the controls for which the container pass emits a descriptor and the controls for
  which the fallback sweep emits one are disjoint. More: the sweep emits no descriptor
  for any element below a question container, whether or not the container pass made a
  descriptor from it.
\<close>

theorem no_double_claim:
  "element ` set (containerPass d) \<inter> element ` set (fallbackSweep d) = {}
   \<and> (\<Union>c \<in> set (questionContainers d). fst ` set (descendants c))
       \<inter> element ` set (fallbackSweep d) = {}"
proof -
  define below where "below = (\<Union>c \<in> set (questionContainers d). fst ` set (descendants c))"
  define swept where "swept = element ` set (fallbackSweep d)"
  define claimed where "claimed = element ` set (containerPass d)"
  have 1: "\<And>p. p \<in> below \<Longrightarrow> p \<notin> swept"
    unfolding below_def swept_def by (rule claimed_not_swept)
  have 2: "\<And>p. p \<in> claimed \<Longrightarrow> p \<in> below"
    unfolding below_def claimed_def using containerPass_element by (elim imageE) simp
  from 1 2 have "claimed \<inter> swept = {} \<and> below \<inter> swept = {}" by blast
  then show ?thesis unfolding below_def swept_def claimed_def .
qed

section \<open>The descriptors of one container\<close>

lemma type_radioGroup: "f \<in> set (radioGroup d i c) \<Longrightarrow> type f = ''radio''"
  by (cases "querySelectorAllIn c radioSel") (simp_all add: radioGroup_def)

lemma type_checkboxFields: "f \<in> set (checkboxFields d i c) \<Longrightarrow> type f = ''checkbox''"
  by (auto simp: checkboxFields_def Let_def)

lemma type_textFields:
  "f \<in> set (textFields d i c) \<Longrightarrow> type f = ''text'' \<or> type f = ''textarea''"
  by (auto simp: textFields_def Let_def textKind_def)

lemma type_selectFields: "f \<in> set (selectFields d i c) \<Longrightarrow> type f = ''select''"
  by (auto simp: selectFields_def Let_def)

lemma filter_all: "(\<And>x. x \<in> set xs \<Longrightarrow> P x) \<Longrightarrow> filter P xs = xs"
  by (induction xs) simp_all

lemma filter_none: "(\<And>x. x \<in> set xs \<Longrightarrow> \<not> P x) \<Longrightarrow> filter P xs = []"
  by (induction xs) simp_all

lemma filter_radio_containerFields:
  "filter (\<lambda>f. type f = ''radio'') (containerFields d i c) = radioGroup d i c"
proof -
  have "filter (\<lambda>f. type f = ''radio'') (radioGroup d i c) = radioGroup d i c"
    by (rule filter_all) (rule type_radioGroup)
  moreover have "filter (\<lambda>f. type f = ''radio'') (checkboxFields d i c) = []"
    by (rule filter_none) (simp add: type_checkboxFields)
  moreover have "filter (\<lambda>f. type f = ''radio'') (textFields d i c) = []"
    by (rule filter_none) (use type_textFields in fastforce)
  moreover have "filter (\<lambda>f. type f = ''radio'') (selectFields d i c) = []"
    by (rule filter_none) (simp add: type_selectFields)
  ultimately show ?thesis by (simp only: containerFields_def filter_append append_Nil2)
qed

lemma filter_checkbox_containerFields:
  "filter (\<lambda>f. type f = ''checkbox'') (containerFields d i c) = checkboxFields d i c"
proof -
  have "filter (\<lambda>f. type f = ''checkbox'') (radioGroup d i c) = []"
    by (rule filter_none) (simp add: type_radioGroup)
  moreover have "filter (\<lambda>f. type f = ''checkbox'') (checkboxFields d i c) = checkboxFields d i c"
    by (rule filter_all) (rule type_checkboxFields)
  moreover have "filter (\<lambda>f. type f = ''checkbox'') (textFields d i c) = []"
    by (rule filter_none) (use type_textFields in fastforce)
  moreover have "filter (\<lambda>f. type f = ''checkbox'') (selectFields d i c) = []"
    by (rule filter_none) (simp add: type_selectFields)
  ultimately show ?thesis by (simp only: containerFields_def filter_append append_Nil2 append_Nil)
qed

lemma radio_count_containersFrom:
  "length (filter (\<lambda>f. type f = ''radio'') (containersFrom d m cs)) =
   length (filter (\<lambda>c. querySelectorAllIn c radioSel \<noteq> []) cs)"
proof (induction cs arbitrary: m)
  case Nil
  show ?case by (simp add: containersFrom_Nil)
next
  case (Cons c cs)
  have "length (radioGroup d m c) = (if querySelectorAllIn c radioSel \<noteq> [] then 1 else 0)"
    by (cases "querySelectorAllIn c radioSel") (simp_all add: radioGroup_def)
  then show ?case
    by (simp add: containersFrom_Cons filter_radio_containerFields Cons.IH)
qed

lemma type_fallbackSweep:
  assumes "f \<in> set (fallbackSweep d)"
  shows "type f = ''text'' \<or> type f = ''textarea''"
proof -
  from assms obtain x where "fallbackField d (fst x) (snd x) = Inr [f]"
    unfolding fallbackSweep_def using sweep_mem by blast
  from fallbackField_Inr [OF this] have "type f = textKind (snd (snd x))" by auto
  then show ?thesis by (simp add: textKind_def)
qed

text \<open>What the discovery script hands over is what it pushed.\<close>

lemma discovered_Inr: "discovered d = Inr found \<Longrightarrow> found = discover d"
  by (auto simp: discovered_def split: option.splits)

lemma filter_radio_discover:
  "filter (\<lambda>f. type f = ''radio'') (discover d) =
   filter (\<lambda>f. type f = ''radio'') (containerPass d)"
proof -
  have "filter (\<lambda>f. type f = ''radio'') (fallbackSweep d) = []"
    by (rule filter_none) (use type_fallbackSweep in fastforce)
  then show ?thesis by (simp add: discover_def)
qed

text \<open>
  C4: a container with at least one radio yields exactly one descriptor of type
  \<open>radio\<close>, labelled with the container's question text; its options are the texts of
  the container's radios in document order, so as many as there are radios. A container
  with no radio yields none, and the discovery script pushes one such descriptor for
  each container that holds a radio and no other.
\<close>

theorem radio_grouping:
  "(querySelectorAllIn c radioSel \<noteq> [] \<longrightarrow>
      (\<exists>f. filter (\<lambda>f. type f = ''radio'') (containerFields d i c) = [f]
          \<and> label f = questionTextOf i c
          \<and> options f = Some (map (optionText d) (querySelectorAllIn c radioSel))
          \<and> (\<exists>os. options f = Some os
                \<and> length os = length (querySelectorAllIn c radioSel))))
   \<and> (querySelectorAllIn c radioSel = [] \<longrightarrow>
        filter (\<lambda>f. type f = ''radio'') (containerFields d i c) = [])
   \<and> length (filter (\<lambda>f. type f = ''radio'') (discover d)) =
       length (filter (\<lambda>c. querySelectorAllIn c radioSel \<noteq> []) (questionContainers d))"
  unfolding filter_radio_discover filter_radio_containerFields containerPass_containersFrom
    radio_count_containersFrom
  by (cases "querySelectorAllIn c radioSel") (simp_all add: radioGroup_def)

lemma filter_checkbox_discover:
  "filter (\<lambda>f. type f = ''checkbox'') (discover d) =
   concat (map (\<lambda>(containerIndex, container). checkboxFields d containerIndex container)
              (enumerate 0 (questionContainers d)))"
proof -
  have "filter (\<lambda>f. type f = ''checkbox'') (fallbackSweep d) = []"
    by (rule filter_none) (use type_fallbackSweep in fastforce)
  then have "filter (\<lambda>f. type f = ''checkbox'') (discover d) =
      filter (\<lambda>f. type f = ''checkbox'') (containerPass d)"
    by (simp add: discover_def)
  also have "\<dots> = concat (map (\<lambda>x. filter (\<lambda>f. type f = ''checkbox'')
                  (containerFields d (fst x) (snd x))) (enumerate 0 (questionContainers d)))"
    by (simp add: containerPass_def filter_concat comp_def case_prod_beta)
  finally show ?thesis
    by (simp add: filter_checkbox_containerFields split_def)
qed

text \<open>
  C5: the descriptors of type \<open>checkbox\<close> that a container yields are one for each of
  its checkboxes, in order, and the label of each is the container's question text,
  \<open>" - "\<close>, and the checkbox's own text. The checkbox descriptors that the discovery
  script pushes are these, container after container; nothing groups them.
\<close>

theorem checkbox_non_grouping:
  "filter (\<lambda>f. type f = ''checkbox'') (containerFields d i c) = checkboxFields d i c
   \<and> length (checkboxFields d i c) = length (querySelectorAllIn c checkboxSel)
   \<and> map label (checkboxFields d i c) =
       map (\<lambda>(k, checkbox). questionTextOf i c @ '' - '' @ checkboxText (root d) k checkbox)
         (enumerate 0 (querySelectorAllIn c checkboxSel))
   \<and> filter (\<lambda>f. type f = ''checkbox'') (discover d) =
       concat (map (\<lambda>(containerIndex, container). checkboxFields d containerIndex container)
                  (enumerate 0 (questionContainers d)))"
proof -
  have 1: "length (checkboxFields d i c) = length (querySelectorAllIn c checkboxSel)"
    by (simp add: checkboxFields_def Let_def)
  have 2: "map label (checkboxFields d i c) =
       map (\<lambda>(k, checkbox). questionTextOf i c @ '' - '' @ checkboxText (root d) k checkbox)
         (enumerate 0 (querySelectorAllIn c checkboxSel))"
    by (simp add: checkboxFields_def Let_def case_prod_beta)
  from 1 2 show ?thesis
    by (simp only: filter_checkbox_containerFields filter_checkbox_discover simp_thms)
qed

section \<open>Applying a boolean to a checkbox\<close>






lemma find_sat: "find P xs = Some x \<Longrightarrow> P x \<and> x \<in> set xs"
  by (induction xs) (auto split: if_splits)




lemma findE_all_fail:
  "(\<And>x. x \<in> set xs \<Longrightarrow> test x = Inr False) \<Longrightarrow> findE test xs = Inr None"
  by (induction xs) simp_all






section \<open>Applying a value to a radio group\<close>

lemma fillRadio_cases:
  "fillRadio fieldLabel fieldValue d = d
   \<or> (\<exists>radio. radio \<in> set (querySelectorAll (root d) radioSel)
        \<and> radioTest (root d) fieldLabel fieldValue radio
        \<and> fillRadio fieldLabel fieldValue d = click radio d)"
proof (cases "find (radioTest (root d) fieldLabel fieldValue) (querySelectorAll (root d) radioSel)")
  case None
  then show ?thesis by (simp add: fillRadio_def)
next
  case (Some radio)
  have "fillRadio fieldLabel fieldValue d = click radio d"
    using Some by (simp add: fillRadio_def)
  with find_sat [OF Some] show ?thesis by blast
qed

lemma matches_includes: "str_includes a b \<Longrightarrow> matches a b"
  by (simp add: matches_def)

text \<open>
  C7: for a radio descriptor, when the value (as a string) is not one of the
  descriptor's options nothing is attempted: no script runs and the page is returned as
  it is. When the step changes the page, the value is one of the options and the change
  is the activation of one radio of the document whose own label text matches the value
  in one direction or the other and whose enclosing container's question text contains
  the descriptor's label, hence matches it.
\<close>

theorem radio_application:
  assumes "type field = ''radio''"
  shows "(\<not> hasOption field (String v) \<longrightarrow> fillField pg field v = Inr pg)
    \<and> (fillField pg field v = Inr pg' \<and> pg' \<noteq> pg \<longrightarrow>
        hasOption field (String v)
        \<and> (\<exists>radio. radio \<in> set (querySelectorAll (root (content pg)) radioSel)
             \<and> content pg' = click radio (content pg)
             \<and> matches (radioOwnLabel (root (content pg)) radio) (String v)
             \<and> str_includes (radioQuestionText (root (content pg)) radio) (label field)
             \<and> matches (radioQuestionText (root (content pg)) radio) (label field)))"
proof (intro conjI impI)
  assume "\<not> hasOption field (String v)"
  with assms show "fillField pg field v = Inr pg" by (simp add: fillField_def)
next
  assume a: "fillField pg field v = Inr pg' \<and> pg' \<noteq> pg"
  with assms show opt: "hasOption field (String v)"
    by (auto simp: fillField_def split: if_splits)
  with assms a have ev: "evaluate pg (\<lambda>d. Inr (fillRadio (label field) (String v) d)) = Inr pg'"
    by (simp add: fillField_def)
  then have pg': "pg' = pg\<lparr>content := fillRadio (label field) (String v) (content pg)\<rparr>"
    by (auto simp: evaluate_def split: if_splits)
  with a have "fillRadio (label field) (String v) (content pg) \<noteq> content pg"
    by auto
  then obtain radio where r: "radio \<in> set (querySelectorAll (root (content pg)) radioSel)"
    and t: "radioTest (root (content pg)) (label field) (String v) radio"
    and c: "fillRadio (label field) (String v) (content pg) = click radio (content pg)"
    using fillRadio_cases [of "label field" "String v" "content pg"] by blast
  from pg' c have "content pg' = click radio (content pg)" by simp
  moreover from t have "matches (radioOwnLabel (root (content pg)) radio) (String v)"
    and "str_includes (radioQuestionText (root (content pg)) radio) (label field)"
    by (simp_all add: radioTest_def)
  ultimately show "\<exists>radio. radio \<in> set (querySelectorAll (root (content pg)) radioSel)
             \<and> content pg' = click radio (content pg)
             \<and> matches (radioOwnLabel (root (content pg)) radio) (String v)
             \<and> str_includes (radioQuestionText (root (content pg)) radio) (label field)
             \<and> matches (radioQuestionText (root (content pg)) radio) (label field)"
    using r matches_includes by blast
qed

text \<open>
  The test on the container is the containment in one direction only, and the converse
  of the second part fails: the radio of \<^const>\<open>looseRadioDoc\<close> has no container, so its
  question text is empty and matches every label as a substring of it, and its own
  label is the value; it is not activated.
\<close>

lemma radio_outside_container_not_activated:
  "looseRadio \<in> set (querySelectorAll (root looseRadioDoc) radioSel)
   \<and> matches (radioOwnLabel (root looseRadioDoc) looseRadio) ''Green''
   \<and> matches (radioQuestionText (root looseRadioDoc) looseRadio) ''Favorite color''
   \<and> fillRadio ''Favorite color'' ''Green'' looseRadioDoc = looseRadioDoc"
proof -
  have 1: "looseRadio \<in> set (querySelectorAll (root looseRadioDoc) radioSel)"
    by code_simp
  have 2: "matches (radioOwnLabel (root looseRadioDoc) looseRadio) ''Green''"
    by code_simp
  have 3: "matches (radioQuestionText (root looseRadioDoc) looseRadio) ''Favorite color''"
    by code_simp
  have "find (radioTest (root looseRadioDoc) ''Favorite color'' ''Green'')
          (querySelectorAll (root looseRadioDoc) radioSel) = None"
    by code_simp
  then have 4: "fillRadio ''Favorite color'' ''Green'' looseRadioDoc = looseRadioDoc"
    by (simp add: fillRadio_def)
  from 1 2 3 4 show ?thesis by simp
qed

section \<open>The run and the loop\<close>

text \<open>
  C8: when the browser starts, the location opens and discovery returns no descriptor,
  the run returns normally with the page as it is and nothing logged, and the calls it
  made end with discovery: the value-mapping provider is not called.
\<close>

theorem zero_fields_short_circuit:
  assumes "launch e" and "goto e formUrl = Some pg" and "extractFormFields pg = Inr []"
  shows "autoFillGoogleForm e formUrl context =
           (Inr (pg, []), [InitBrowser, NavigateToForm formUrl, ExtractFormFields])"
  using assms by (simp add: autoFillGoogleForm_def initBrowser_def navigateToForm_def)

lemma fillForm_skip_one:
  assumes "formData (label field) = None \<or> formData (label field) = Some JNull"
  shows "fillForm pg (field # rest) formData = fillForm pg rest formData"
  using assms by (cases "formData (label field)") simp_all

text \<open>
  C9: a descriptor whose label has no key in the mapping, or the value \<open>null\<close>, can be
  taken out of the list without changing what the loop returns: the page and the
  logged errors are those of the loop over the other descriptors.
\<close>

theorem skip_on_absent:
  assumes "formData (label field) = None \<or> formData (label field) = Some JNull"
  shows "fillForm pg (before @ field # rest) formData = fillForm pg (before @ rest) formData"
proof (induction before arbitrary: pg)
  case Nil
  show ?case using assms fillForm_skip_one [of formData field pg rest] by simp
next
  case (Cons x before)
  show ?case
    by (simp add: Cons.IH split: option.split jsvalue.split sum.split)
qed

section \<open>A text descriptor that no control answers to\<close>




lemma fillText_no_match:
  assumes "\<forall>el \<in> set (querySelectorAll (root d) textControlSel).
             \<exists>l. findLabelText d el = Inr l \<and> \<not> matches l fieldLabel"
  shows "fillText fieldLabel fieldValue d = Inr d"
proof -
  have "findE (\<lambda>el. labelTest (findLabelText d el) fieldLabel)
          (querySelectorAll (root d) textControlSel) = Inr None"
    using assms by (intro findE_all_fail) (auto simp: labelTest_def)
  then show ?thesis by (simp add: fillText_def)
qed




section \<open>Label inference in the two passes\<close>

text \<open>
  Where the sibling walk finds nothing, or an earlier step already decides, the helper
  of the text kinds in the application pass agrees with the helper of discovery.
\<close>

lemma findLabelText_agrees:
  "labelById d (snd el) \<noteq> Inr None \<or> closest (root d) labelSel (fst el) \<noteq> None
     \<or> prevWalk (previousElementSiblings (root d) (fst el)) = None
   \<Longrightarrow> findLabelText d el = findLabelForInput d el"
  by (auto simp: findLabelText_def findLabelForInput_def split: option.splits sum.splits)

text \<open>
  C1 does not hold of the code: the helper of the application pass has no walk over the
  preceding siblings. For the text input of \<^const>\<open>siblingLabelDoc\<close>, which application
  scans, discovery infers the label \<open>Name\<close> and application infers \<open>Unknown field\<close>; the
  descriptor that discovery emits is labelled \<open>Name\<close>, and applying a value under that
  label leaves the document as it is.
\<close>

theorem label_inference_differs:
  "nameInput \<in> set (querySelectorAll (root siblingLabelDoc) textControlSel)
   \<and> findLabelForInput siblingLabelDoc nameInput = Inr ''Name''
   \<and> findLabelText siblingLabelDoc nameInput = Inr ''Unknown field''
   \<and> map label (discover siblingLabelDoc) = [''Name'']
   \<and> discovered siblingLabelDoc = Inr (discover siblingLabelDoc)
   \<and> fillText ''Name'' ''Ada'' siblingLabelDoc = Inr siblingLabelDoc"
proof -
  have 1: "nameInput \<in> set (querySelectorAll (root siblingLabelDoc) textControlSel)"
    by code_simp
  have 2: "findLabelForInput siblingLabelDoc nameInput = Inr ''Name''"
    by code_simp
  have 3: "findLabelText siblingLabelDoc nameInput = Inr ''Unknown field''"
    by code_simp
  have 4: "map label (discover siblingLabelDoc) = [''Name'']"
    by code_simp
  have "fallbackThrown siblingLabelDoc = None"
    by code_simp
  then have 5: "discovered siblingLabelDoc = Inr (discover siblingLabelDoc)"
    by (simp add: discovered_def)
  have m: "map (findLabelText siblingLabelDoc)
             (querySelectorAll (root siblingLabelDoc) textControlSel) = [Inr ''Unknown field'']"
    by code_simp
  have nm: "\<not> matches ''Unknown field'' ''Name''"
    by code_simp
  have "\<forall>r \<in> set (map (findLabelText siblingLabelDoc)
             (querySelectorAll (root siblingLabelDoc) textControlSel)).
          \<exists>l. r = Inr l \<and> \<not> matches l ''Name''"
    unfolding m using nm by simp
  then have "\<forall>el \<in> set (querySelectorAll (root siblingLabelDoc) textControlSel).
             \<exists>l. findLabelText siblingLabelDoc el = Inr l \<and> \<not> matches l ''Name''"
    by simp
  then have 6: "fillText ''Name'' ''Ada'' siblingLabelDoc = Inr siblingLabelDoc"
    by (rule fillText_no_match)
  from 1 2 3 4 5 6 show ?thesis by simp
qed

section \<open>The theorems on the example documents\<close>

theorem discovery_names_distinct_witness:
  "nameAttributes (sweptControls interestsDoc) = [''comments'']
   \<and> map name (discover interestsDoc) =
       [''question_0_checkbox_0'', ''question_0_checkbox_1'', ''question_0_text_0'', ''comments'']
   \<and> distinct (map name (discover interestsDoc))"
proof -
  have a: "nameAttributes (sweptControls interestsDoc) = [''comments'']"
    by code_simp
  have h1: "distinct (nameAttributes (sweptControls interestsDoc))"
    by code_simp
  have h2: "\<forall>n \<in> set (nameAttributes (sweptControls interestsDoc)).
              \<not> prefix ''question_'' n \<and> \<not> prefix ''field_'' n"
    by code_simp
  have n: "map name (discover interestsDoc) =
       [''question_0_checkbox_0'', ''question_0_checkbox_1'', ''question_0_text_0'', ''comments'']"
    by code_simp
  from a h1 h2 n discovery_names_distinct [of interestsDoc 0 interestsContainer]
  show ?thesis by blast
qed

theorem no_double_claim_witness:
  "map element (containerPass interestsDoc) = [[0, 1, 0], [0, 2, 0], [3, 0]]
   \<and> map element (fallbackSweep interestsDoc) = [[1]]
   \<and> element ` set (containerPass interestsDoc) \<inter> element ` set (fallbackSweep interestsDoc) = {}"
proof -
  have "map element (containerPass interestsDoc) = [[0, 1, 0], [0, 2, 0], [3, 0]]"
    by code_simp
  moreover have "map element (fallbackSweep interestsDoc) = [[1]]"
    by code_simp
  ultimately show ?thesis using no_double_claim [of interestsDoc] by blast
qed

theorem radio_grouping_witness:
  "querySelectorAllIn colorContainer radioSel \<noteq> []
   \<and> map options (filter (\<lambda>f. type f = ''radio'') (containerFields colorDoc 0 colorContainer))
       = [Some [''Red'', ''Green'', ''Blue'']]
   \<and> length (querySelectorAllIn colorContainer radioSel) = 3
   \<and> (\<exists>f. filter (\<lambda>f. type f = ''radio'') (containerFields colorDoc 0 colorContainer) = [f]
          \<and> label f = questionTextOf 0 colorContainer
          \<and> options f = Some (map (optionText colorDoc) (querySelectorAllIn colorContainer radioSel))
          \<and> (\<exists>os. options f = Some os
                \<and> length os = length (querySelectorAllIn colorContainer radioSel)))"
proof -
  have h: "querySelectorAllIn colorContainer radioSel \<noteq> []" by code_simp
  have o: "map options (filter (\<lambda>f. type f = ''radio'') (containerFields colorDoc 0 colorContainer))
       = [Some [''Red'', ''Green'', ''Blue'']]" by code_simp
  have l: "length (querySelectorAllIn colorContainer radioSel) = 3" by code_simp
  from h o l radio_grouping [of colorContainer colorDoc 0] show ?thesis by blast
qed

theorem checkbox_non_grouping_witness:
  "length (querySelectorAllIn interestsContainer checkboxSel) = 2
   \<and> map label (checkboxFields interestsDoc 0 interestsContainer) =
       [''Interests - Music'', ''Interests - Sport'']
   \<and> filter (\<lambda>f. type f = ''checkbox'') (containerFields interestsDoc 0 interestsContainer) =
       checkboxFields interestsDoc 0 interestsContainer
   \<and> length (checkboxFields interestsDoc 0 interestsContainer) =
       length (querySelectorAllIn interestsContainer checkboxSel)"
proof -
  have "length (querySelectorAllIn interestsContainer checkboxSel) = 2"
    by code_simp
  moreover have "map label (checkboxFields interestsDoc 0 interestsContainer) =
       [''Interests - Music'', ''Interests - Sport'']"
    by code_simp
  ultimately show ?thesis
    using checkbox_non_grouping [of interestsDoc 0 interestsContainer] by blast
qed


theorem radio_application_witness:
  "type colorField = ''radio''
   \<and> fillField (openPage colorDoc) colorField (JString ''Green'') =
       Inr ((openPage colorDoc)\<lparr>content := click greenRadio colorDoc\<rparr>)
   \<and> (openPage colorDoc)\<lparr>content := click greenRadio colorDoc\<rparr> \<noteq> openPage colorDoc
   \<and> hasOption colorField (String (JString ''Green''))
   \<and> radioOwnLabel (root colorDoc) greenRadio = ''Green''
   \<and> radioQuestionText (root colorDoc) greenRadio = ''Favorite color''
   \<and> (\<exists>radio. radio \<in> set (querySelectorAll (root (content (openPage colorDoc))) radioSel)
         \<and> content ((openPage colorDoc)\<lparr>content := click greenRadio colorDoc\<rparr>) =
             click radio (content (openPage colorDoc))
         \<and> matches (radioOwnLabel (root (content (openPage colorDoc))) radio)
               (String (JString ''Green''))
         \<and> matches (radioQuestionText (root (content (openPage colorDoc))) radio)
               (label colorField))"
proof -
  have h1: "type colorField = ''radio''" by code_simp
  have o: "hasOption colorField ''Green''" by code_simp
  have f: "find (radioTest (root colorDoc) ''Favorite color'' ''Green'')
             (querySelectorAll (root colorDoc) radioSel) = Some greenRadio" by code_simp
  have l: "label colorField = ''Favorite color''" by code_simp
  have h2: "fillField (openPage colorDoc) colorField (JString ''Green'') =
       Inr ((openPage colorDoc)\<lparr>content := click greenRadio colorDoc\<rparr>)"
    using h1 o f l by (simp add: fillField_def evaluate_def fillRadio_def openPage_def)
  have "dispatched (content ((openPage colorDoc)\<lparr>content := click greenRadio colorDoc\<rparr>))
        \<noteq> dispatched (content (openPage colorDoc))" by code_simp
  then have h3: "(openPage colorDoc)\<lparr>content := click greenRadio colorDoc\<rparr> \<noteq> openPage colorDoc"
    by metis
  have a: "radioOwnLabel (root colorDoc) greenRadio = ''Green''" by code_simp
  have b: "radioQuestionText (root colorDoc) greenRadio = ''Favorite color''" by code_simp
  from h1 h2 h3 a b radio_application [of colorField "JString ''Green''" "openPage colorDoc"
      "(openPage colorDoc)\<lparr>content := click greenRadio colorDoc\<rparr>"]
  show ?thesis by blast
qed

theorem zero_fields_short_circuit_witness:
  "launch silentEnv
   \<and> goto silentEnv ''https://example.org/form'' = Some \<lparr>content = emptyDoc, closed = False\<rparr>
   \<and> extractFormFields \<lparr>content = emptyDoc, closed = False\<rparr> = Inr []
   \<and> autoFillGoogleForm silentEnv ''https://example.org/form'' None =
       (Inr (\<lparr>content = emptyDoc, closed = False\<rparr>, []),
        [InitBrowser, NavigateToForm ''https://example.org/form'', ExtractFormFields])"
proof -
  have h1: "launch silentEnv" by (simp add: silentEnv_def)
  have h2: "goto silentEnv ''https://example.org/form'' = Some \<lparr>content = emptyDoc, closed = False\<rparr>"
    by (simp add: silentEnv_def)
  have h3: "extractFormFields \<lparr>content = emptyDoc, closed = False\<rparr> = Inr []" by code_simp
  from h1 h2 h3 zero_fields_short_circuit [OF h1 h2 h3, of None] show ?thesis by simp
qed

theorem skip_on_absent_witness:
  "musicData (label phoneField) = None
   \<and> fillForm (openPage interestsDoc) [musicField, phoneField, musicField] musicData =
       fillForm (openPage interestsDoc) [musicField, musicField] musicData
   \<and> snd (fillForm (openPage interestsDoc) [musicField, phoneField, musicField] musicData) = []"
proof -
  have h: "musicData (label phoneField) = None" by code_simp
  then have h': "musicData (label phoneField) = None \<or> musicData (label phoneField) = Some JNull"
    by simp
  have l: "snd (fillForm (openPage interestsDoc) [musicField, phoneField, musicField] musicData) = []"
    by code_simp
  from h l h' skip_on_absent [where formData = musicData and field = phoneField
      and pg = "openPage interestsDoc" and before = "[musicField]" and rest = "[musicField]"]
  show ?thesis by simp
qed


end
